theory Spec2Isabelle
  imports Complex_Main
begin

section \<open>The image feed of ImageDataContext\<close>

text \<open>
  The development embeds the data-loading core of the Space Explorer frontend: the
  provider \<^verbatim>\<open>ImageDataProvider\<close> with its callback \<^verbatim>\<open>fetchPage\<close>, and the hook
  \<^verbatim>\<open>useImageData\<close> with \<^verbatim>\<open>loadMore\<close> and \<^verbatim>\<open>refresh\<close>.

  The React state cells (\<^verbatim>\<open>useState\<close>) and the two mutable references
  (\<^verbatim>\<open>useRef\<close>) are the fields of one record that every operation takes and returns.
  An \<^verbatim>\<open>async\<close> function is cut at its \<^verbatim>\<open>await\<close>: the part that runs
  synchronously when the function is called, and the part that runs when the awaited
  promise settles. The calls made to \<^verbatim>\<open>sourcesAPI.getSources\<close> are logged in the
  field \<open>sent\<close>, which the program itself does not hold.

  A state setter takes effect at once in the model. The only state cell the code reads
  back is \<^verbatim>\<open>hasMore\<close>, in \<^verbatim>\<open>loadMore\<close>, as the value of the last render; the references
  are read directly. Offsets are natural numbers: the callers pass \<^verbatim>\<open>0\<close> and
  \<^verbatim>\<open>items.length\<close>.
\<close>

subsection \<open>Data\<close>

text \<open>
  A JavaScript number that is carried along and never computed with (the confidence score
  of a search hit).
\<close>

type_synonym number = real

text \<open>
  \<^verbatim>\<open>interface ImageData\<close>. The fields \<^verbatim>\<open>id\<close>, \<^verbatim>\<open>type\<close> and \<^verbatim>\<open>keywords\<close> carry a prime, since the
  plain names are taken in HOL.
\<close>

record image_data =
  id' :: string
  name :: string
  description :: string
  launch_date :: string
  image_url :: string
  canonical_url :: "string option"
  type' :: string
  keywords' :: "string list"
  photographer :: string
  search :: bool
  confidence_score :: "number option"

text \<open>
  \<^verbatim>\<open>interface Source\<close> of \<^verbatim>\<open>api/interfaces\<close>: one record of the array that
  \<^verbatim>\<open>sourcesAPI.getSources\<close> resolves to. The interface leaves \<^verbatim>\<open>image_url\<close>,
  \<^verbatim>\<open>canonical_url\<close> and \<^verbatim>\<open>confidence_score\<close> optional and declares \<^verbatim>\<open>id\<close> as a string
  that is always there; \<^verbatim>\<open>fetchPage\<close> still provides for a record without an id
  (\<^verbatim>\<open>it?.id ?? ...\<close>), so the id is optional here as well. \<open>None\<close> is the absent (or
  null) field.
\<close>

record source =
  src_id :: "string option"
  src_name :: string
  src_type :: string
  src_launch_date :: string
  src_description :: string
  src_image_url :: "string option"
  src_canonical_url :: "string option"
  src_keywords :: "string list"
  src_photographer :: string
  src_search :: bool
  src_confidence_score :: "number option"

text \<open>
  How the promise of \<^verbatim>\<open>sourcesAPI.getSources(params)\<close> settles: it rejects, or it
  resolves to a response whose \<^verbatim>\<open>data\<close> is absent (\<open>None\<close>) or an array. An entry of
  the array is a record or a falsy value (\<^verbatim>\<open>null\<close>), written \<open>None\<close>. A response
  that makes the code after the \<^verbatim>\<open>await\<close> throw (a \<^verbatim>\<open>data\<close> that is no array) ends in
  the \<^verbatim>\<open>catch\<close> block before any state is written, as a rejection does.
\<close>

datatype outcome = Rejected | Resolved "source option list option"

text \<open>The parameters of one call of \<^verbatim>\<open>sourcesAPI.getSources\<close>.\<close>

record sources_params =
  offset :: nat
  limit :: nat
  q :: "string option"

text \<open>
  The state of \<^verbatim>\<open>ImageDataProvider\<close>: five \<^verbatim>\<open>useState\<close> cells, the references
  \<^verbatim>\<open>isLoadingRef\<close> and \<^verbatim>\<open>loadedIdsRef\<close>, and the log of the calls sent.
\<close>

record feed_state =
  images :: "image_data list"
  loading :: bool
  error :: "string option"
  hasMore :: bool
  isLoadingMore :: bool
  isLoadingRef :: bool
  loadedIdsRef :: "string set"
  sent :: "sources_params list"

definition PAGE_SIZE :: nat where
  "PAGE_SIZE = 60"

text \<open>The values the hooks are created with.\<close>

definition initial_state :: feed_state where
  "initial_state =
     \<lparr>images = [], loading = True, error = None, hasMore = True, isLoadingMore = False,
      isLoadingRef = False, loadedIdsRef = {}, sent = []\<rparr>"

subsection \<open>Strings\<close>

text \<open>
  A number inside a template literal is printed in decimal; offsets and indices are
  natural numbers here.
\<close>

definition digit_char :: "nat \<Rightarrow> char" where
  "digit_char d = char_of (48 + d)"

fun show_nat :: "nat \<Rightarrow> string" where
  "show_nat n = (if n < 10 then [digit_char n] else show_nat (n div 10) @ [digit_char (n mod 10)])"

declare show_nat.simps [simp del]

text \<open>
  \<^verbatim>\<open>String.prototype.trim\<close>, for queries written in ASCII: tab, line feed, vertical
  tab, form feed, carriage return and space are removed at both ends. The blanks beyond
  ASCII that JavaScript removes as well (the no-break space among them) have no
  counterpart in these strings; nothing below depends on which characters are removed.
\<close>

definition is_space :: "char \<Rightarrow> bool" where
  "is_space c = (c \<in> {CHR 0x09, CHR 0x0A, CHR 0x0B, CHR 0x0C, CHR 0x0D, CHR '' ''})"

definition trim :: "string \<Rightarrow> string" where
  "trim s = rev (dropWhile is_space (rev (dropWhile is_space s)))"

subsection \<open>fetchPage\<close>

text \<open>\<^verbatim>\<open>.filter(Boolean)\<close> on the entries of the response.\<close>

definition Boolean :: "source option \<Rightarrow> bool" where
  "Boolean e = (e \<noteq> None)"

text \<open>
  The callback of \<^verbatim>\<open>.map\<close>: the record is copied, a missing id becomes
  \<^verbatim>\<open>tmp-${offset}-${i}\<close> and a missing or empty image URL the empty string.
\<close>

definition toImageData :: "nat \<Rightarrow> nat \<Rightarrow> source \<Rightarrow> image_data" where
  "toImageData off i it =
     \<lparr>id' = (case src_id it of Some s \<Rightarrow> s
              | None \<Rightarrow> ''tmp-'' @ show_nat off @ ''-'' @ show_nat i),
      name = src_name it,
      description = src_description it,
      launch_date = src_launch_date it,
      image_url = (case src_image_url it of Some u \<Rightarrow> u | None \<Rightarrow> ''''),
      canonical_url = src_canonical_url it,
      type' = src_type it,
      keywords' = src_keywords it,
      photographer = src_photographer it,
      search = src_search it,
      confidence_score = src_confidence_score it\<rparr>"

text \<open>\<^verbatim>\<open>.map((it, i) => ...)\<close>: the index counts the entries that passed the filter.\<close>

fun mapIndexed :: "nat \<Rightarrow> nat \<Rightarrow> source list \<Rightarrow> image_data list" where
  "mapIndexed off i [] = []"
| "mapIndexed off i (it # its) = toImageData off i it # mapIndexed off (Suc i) its"

text \<open>\<^verbatim>\<open>incomingItems = (response.data ?? []).filter(Boolean).map(...)\<close>\<close>

definition incomingItems :: "nat \<Rightarrow> source option list option \<Rightarrow> image_data list" where
  "incomingItems off data =
     mapIndexed off 0
       (map the (filter Boolean (case data of None \<Rightarrow> [] | Some d \<Rightarrow> d)))"

text \<open>
  \<^verbatim>\<open>incomingItems.filter((item) => ...)\<close>, whose callback reads and extends the set
  \<^verbatim>\<open>loadedIdsRef.current\<close>: the result is the list of the items kept and the set
  afterwards.
\<close>

fun filterNew :: "string set \<Rightarrow> image_data list \<Rightarrow> image_data list \<times> string set" where
  "filterNew loaded [] = ([], loaded)"
| "filterNew loaded (item # items) =
     (if id' item \<notin> loaded
      then (case filterNew (insert (id' item) loaded) items of
              (kept, loaded') \<Rightarrow> (item # kept, loaded'))
      else filterNew loaded items)"

text \<open>
  \<^verbatim>\<open>searchQuery && searchQuery.trim()\<close> decides whether \<^verbatim>\<open>params.q\<close> is set, to the
  trimmed query.
\<close>

definition queryParam :: "string option \<Rightarrow> string option" where
  "queryParam searchQuery =
     (case searchQuery of
        None \<Rightarrow> None
      | Some s \<Rightarrow> if s \<noteq> [] \<and> trim s \<noteq> [] then Some (trim s) else None)"

text \<open>
  \<^verbatim>\<open>fetchPage(offset, searchQuery)\<close> up to its \<^verbatim>\<open>await\<close>: the reference is set, the
  loading-more flag too for a later page, and the call is sent.
\<close>

definition fetchPage_begin :: "nat \<Rightarrow> string option \<Rightarrow> feed_state \<Rightarrow> feed_state" where
  "fetchPage_begin off searchQuery st =
     (let st1 = st\<lparr>isLoadingRef := True\<rparr>;
          st2 = (if off > 0 then st1\<lparr>isLoadingMore := True\<rparr> else st1);
          params = \<lparr>offset = off, limit = PAGE_SIZE, q = queryParam searchQuery\<rparr>
      in st2\<lparr>sent := sent st2 @ [params]\<rparr>)"

text \<open>
  \<^verbatim>\<open>fetchPage\<close> after the \<^verbatim>\<open>await\<close>: the rest of the \<^verbatim>\<open>try\<close> block when the promise
  resolved, the \<^verbatim>\<open>catch\<close> block when it rejected, and the \<^verbatim>\<open>finally\<close> block in
  both cases.
\<close>

definition fetchPage_settle :: "nat \<Rightarrow> outcome \<Rightarrow> feed_state \<Rightarrow> feed_state" where
  "fetchPage_settle off out st =
     (let st1 =
        (case out of
           Rejected \<Rightarrow> st\<lparr>error := Some ''Failed to fetch space images''\<rparr>
         | Resolved data \<Rightarrow>
             (let incoming = incomingItems off data;
                  loaded = (if off = 0 then {} else loadedIdsRef st)
              in case filterNew loaded incoming of
                   (uniqueItems, loaded') \<Rightarrow>
                     st\<lparr>loadedIdsRef := loaded',
                        images := (if off = 0 then uniqueItems else images st @ uniqueItems),
                        hasMore := (length incoming = PAGE_SIZE)\<rparr>))
      in st1\<lparr>isLoadingRef := False, isLoadingMore := False, loading := False\<rparr>)"

text \<open>A call of \<^verbatim>\<open>fetchPage\<close> that runs to its end with nothing in between.\<close>

definition fetchPage :: "nat \<Rightarrow> string option \<Rightarrow> outcome \<Rightarrow> feed_state \<Rightarrow> feed_state" where
  "fetchPage off searchQuery out st = fetchPage_settle off out (fetchPage_begin off searchQuery st)"

subsection \<open>loadMore and refresh\<close>

text \<open>
  \<^verbatim>\<open>loadMore(startIndex, stopIndex, items, searchQuery)\<close> up to the \<^verbatim>\<open>await\<close> of its
  \<^verbatim>\<open>fetchPage\<close>. The indices are integers: \<^verbatim>\<open>items.length - 1\<close> is \<open>-1\<close> for no items.
\<close>

definition loadMore :: "int \<Rightarrow> int \<Rightarrow> image_data list \<Rightarrow> string option \<Rightarrow> feed_state \<Rightarrow> feed_state" where
  "loadMore startIndex stopIndex items searchQuery st =
     (if \<not> hasMore st \<or> isLoadingRef st then st
      else if stopIndex < int (length items) - 1 then st
      else fetchPage_begin (length items) searchQuery st)"

text \<open>\<^verbatim>\<open>refresh(searchQuery)\<close>, which ends when its \<^verbatim>\<open>fetchPage(0, searchQuery)\<close> awaits.\<close>

definition refresh :: "string option \<Rightarrow> feed_state \<Rightarrow> feed_state" where
  "refresh searchQuery st =
     fetchPage_begin 0 searchQuery
       (st\<lparr>loading := True, error := None, images := [], hasMore := True,
           isLoadingMore := False, loadedIdsRef := {}\<rparr>)"

subsection \<open>Runs and reference descriptions\<close>

text \<open>
  A sequence of calls of \<^verbatim>\<open>fetchPage\<close>, each given with the way its request settles
  and each run to its end before the next begins.
\<close>

fun fetchPages :: "(nat \<times> string option \<times> outcome) list \<Rightarrow> feed_state \<Rightarrow> feed_state" where
  "fetchPages [] st = st"
| "fetchPages ((off, searchQuery, out) # calls) st =
     fetchPages calls (fetchPage off searchQuery out st)"

text \<open>
  The unique records of a page, described without the set: the record at position \<open>i\<close>
  stays when no record before it in the page has its id.
\<close>

definition uniqueRecords :: "image_data list \<Rightarrow> image_data list" where
  "uniqueRecords page =
     map (\<lambda>i. page ! i)
       (filter (\<lambda>i. id' (page ! i) \<notin> id' ` set (take i page)) [0..<length page])"

text \<open>A record of the catalogue that has the id \<open>n\<close> in decimal and no other content.\<close>

definition numbered :: "nat \<Rightarrow> source" where
  "numbered n =
     \<lparr>src_id = Some (show_nat n), src_name = '''', src_type = '''',
      src_launch_date = '''', src_description = '''', src_image_url = None,
      src_canonical_url = None, src_keywords = [], src_photographer = '''',
      src_search = False, src_confidence_score = None\<rparr>"

text \<open>
  A response whose array holds the records \<open>mk i, \<dots>, mk (j - 1)\<close> of a family \<open>mk\<close>
  of records.
\<close>

definition records_page :: "(nat \<Rightarrow> source) \<Rightarrow> nat \<Rightarrow> nat \<Rightarrow> outcome" where
  "records_page mk i j = Resolved (Some (map (\<lambda>n. Some (mk n)) [i..<j]))"

text \<open>A response whose array holds the records numbered \<open>i, \<dots>, j - 1\<close>.\<close>

definition page_of :: "nat \<Rightarrow> nat \<Rightarrow> outcome" where
  "page_of i j = Resolved (Some (map (\<lambda>n. Some (numbered n)) [i..<j]))"

text \<open>
  The invariant of the feed: no id occurs twice among the items, and the set of loaded ids
  holds the ids of the items and nothing else.
\<close>

definition dedup_inv :: "feed_state \<Rightarrow> bool" where
  "dedup_inv st =
     (distinct (map id' (images st)) \<and> loadedIdsRef st = id' ` set (images st))"

text \<open>Reading a decimal numeral back, to tell apart the ids that \<open>show_nat\<close> prints.\<close>

definition read_nat :: "string \<Rightarrow> nat" where
  "read_nat s = foldl (\<lambda>a c. 10 * a + (of_char c - 48)) 0 s"

text \<open>
  The calls that run without waiting for a request: none of them is the settling of a
  request.
\<close>

datatype operation =
  FetchPage nat "string option"
| LoadMore int int "image_data list" "string option"
| Refresh "string option"

fun perform :: "operation \<Rightarrow> feed_state \<Rightarrow> feed_state" where
  "perform (FetchPage off searchQuery) st = fetchPage_begin off searchQuery st"
| "perform (LoadMore startIndex stopIndex items searchQuery) st =
     loadMore startIndex stopIndex items searchQuery st"
| "perform (Refresh searchQuery) st = refresh searchQuery st"

fun performs :: "operation list \<Rightarrow> feed_state \<Rightarrow> feed_state" where
  "performs [] st = st"
| "performs (operation # operations) st = performs operations (perform operation st)"

text \<open>
  What happens when the grid is mounted: the effect of \<^verbatim>\<open>useImageData\<close> calls
  \<^verbatim>\<open>fetchPage(0)\<close> and the effect of \<^verbatim>\<open>Grid\<close> calls \<^verbatim>\<open>refresh(activeSearchTerm)\<close> with
  the empty search term, so that two requests for offset 0 are pending.
\<close>

definition mounted :: feed_state where
  "mounted = refresh (Some '''') (fetchPage_begin 0 None initial_state)"

text \<open>
  One of the two requests resolves with the 60 records numbered from 0; the other one is
  still pending.
\<close>

definition first_shown :: feed_state where
  "first_shown = fetchPage_settle 0 (page_of 0 60) mounted"

text \<open>The grid has rendered the last of the 60 items and calls \<^verbatim>\<open>loadMore\<close>.\<close>

definition first_more :: feed_state where
  "first_more = loadMore 0 59 (images first_shown) (Some '''') first_shown"

text \<open>
  The other request for offset 0 resolves with the same 60 records, while the request
  that \<^verbatim>\<open>first_more\<close> has sent is pending.
\<close>

definition second_shown :: feed_state where
  "second_shown = fetchPage_settle 0 (page_of 0 60) first_more"

text \<open>The grid calls \<^verbatim>\<open>loadMore\<close> again.\<close>

definition second_more :: feed_state where
  "second_more = loadMore 0 59 (images second_shown) (Some '''') second_shown"

text \<open>
  The feed at rest: both requests for offset 0 have resolved and no \<^verbatim>\<open>loadMore\<close> has
  been called.
\<close>

definition at_rest :: feed_state where
  "at_rest = fetchPage_settle 0 (page_of 0 60) first_shown"

section \<open>Properties\<close>

subsection \<open>The filter against the set of loaded ids\<close>

lemma fst_filterNew_Cons:
  "fst (filterNew S (x # xs)) =
     (if id' x \<notin> S then x # fst (filterNew (insert (id' x) S) xs) else fst (filterNew S xs))"
  by (simp split: prod.splits)

lemma snd_filterNew_Cons:
  "snd (filterNew S (x # xs)) =
     (if id' x \<notin> S then snd (filterNew (insert (id' x) S) xs) else snd (filterNew S xs))"
  by (simp split: prod.splits)

lemmas filterNew_proj = fst_filterNew_Cons snd_filterNew_Cons

lemma filterNew_snd: "snd (filterNew S xs) = S \<union> id' ` set (fst (filterNew S xs))"
  by (induction xs arbitrary: S) (auto simp: filterNew_proj simp del: filterNew.simps(2))

lemma filterNew_snd_all: "snd (filterNew S xs) = S \<union> id' ` set xs"
  by (induction xs arbitrary: S) (auto simp: filterNew_proj simp del: filterNew.simps(2))

lemma filterNew_fresh: "x \<in> set (fst (filterNew S xs)) \<Longrightarrow> id' x \<notin> S"
  by (induction xs arbitrary: S)
    (auto simp: filterNew_proj simp del: filterNew.simps(2) split: if_splits)

lemma filterNew_subset: "set (fst (filterNew S xs)) \<subseteq> set xs"
  by (induction xs arbitrary: S)
    (auto simp: filterNew_proj simp del: filterNew.simps(2) split: if_splits)

lemma filterNew_distinct: "distinct (map id' (fst (filterNew S xs)))"
proof (induction xs arbitrary: S)
  case Nil
  show ?case by simp
next
  case (Cons x xs)
  show ?case
  proof (cases "id' x \<in> S")
    case True
    then show ?thesis
      using Cons.IH by (simp add: fst_filterNew_Cons del: filterNew.simps(2))
  next
    case False
    have "id' x \<notin> id' ` set (fst (filterNew (insert (id' x) S) xs))"
      using filterNew_fresh [of _ "insert (id' x) S" xs] by force
    then show ?thesis
      using False Cons.IH [of "insert (id' x) S"]
      by (simp add: fst_filterNew_Cons del: filterNew.simps(2))
  qed
qed

text \<open>Which positions of the page the filter keeps.\<close>

lemma filterNew_index:
  "fst (filterNew S xs) =
     map (\<lambda>i. xs ! i)
       (filter (\<lambda>i. id' (xs ! i) \<notin> S \<and> id' (xs ! i) \<notin> id' ` set (take i xs))
          [0..<length xs])"
proof (induction xs arbitrary: S)
  case Nil
  show ?case by simp
next
  case (Cons x xs)
  let ?late = "\<lambda>i. id' (xs ! i) \<notin> S \<and> id' (xs ! i) \<noteq> id' x
                  \<and> id' (xs ! i) \<notin> id' ` set (take i xs)"
  have up: "[0..<Suc (length xs)] = 0 # map Suc [0..<length xs]"
    by (simp add: upt_conv_Cons map_Suc_upt del: upt_Suc)
  show ?case
  proof (cases "id' x \<in> S")
    case True
    have "filter (\<lambda>i. id' (xs ! i) \<notin> S \<and> id' (xs ! i) \<notin> id' ` set (take i xs))
            [0..<length xs] = filter ?late [0..<length xs]"
      using True by (intro filter_cong) auto
    then show ?thesis
      using True Cons.IH [of S]
      by (simp add: up filter_map comp_def fst_filterNew_Cons
            del: upt_Suc filterNew.simps(2))
  next
    case False
    have "filter (\<lambda>i. id' (xs ! i) \<notin> insert (id' x) S
                    \<and> id' (xs ! i) \<notin> id' ` set (take i xs))
            [0..<length xs] = filter ?late [0..<length xs]"
      by (intro filter_cong) auto
    then show ?thesis
      using False Cons.IH [of "insert (id' x) S"]
      by (simp add: up filter_map comp_def fst_filterNew_Cons
            del: upt_Suc filterNew.simps(2))
  qed
qed

subsection \<open>The fields after each part of fetchPage\<close>

lemma length_mapIndexed [simp]: "length (mapIndexed off i its) = length its"
  by (induction its arbitrary: i) auto

lemma length_incomingItems:
  "length (incomingItems off data) =
     length (filter Boolean (case data of None \<Rightarrow> [] | Some d \<Rightarrow> d))"
  by (simp add: incomingItems_def)

lemma settle_Resolved:
  "fetchPage_settle off (Resolved data) st =
     st\<lparr>loadedIdsRef :=
          snd (filterNew (if off = 0 then {} else loadedIdsRef st) (incomingItems off data)),
        images :=
          (if off = 0 then fst (filterNew {} (incomingItems off data))
           else images st @ fst (filterNew (loadedIdsRef st) (incomingItems off data))),
        hasMore := (length (incomingItems off data) = PAGE_SIZE),
        isLoadingRef := False, isLoadingMore := False, loading := False\<rparr>"
  by (simp add: fetchPage_settle_def Let_def split: prod.splits)

lemma settle_Rejected:
  "fetchPage_settle off Rejected st =
     st\<lparr>error := Some ''Failed to fetch space images'',
        isLoadingRef := False, isLoadingMore := False, loading := False\<rparr>"
  by (simp add: fetchPage_settle_def)

lemma begin_fields:
  "images (fetchPage_begin off sq st) = images st"
  "loading (fetchPage_begin off sq st) = loading st"
  "error (fetchPage_begin off sq st) = error st"
  "hasMore (fetchPage_begin off sq st) = hasMore st"
  "loadedIdsRef (fetchPage_begin off sq st) = loadedIdsRef st"
  "isLoadingRef (fetchPage_begin off sq st) = True"
  "isLoadingMore (fetchPage_begin off sq st) = (0 < off \<or> isLoadingMore st)"
  "sent (fetchPage_begin off sq st) =
     sent st @ [\<lparr>offset = off, limit = PAGE_SIZE, q = queryParam sq\<rparr>]"
  by (simp_all add: fetchPage_begin_def Let_def)

subsection \<open>The invariant\<close>

lemma dedup_inv_settle: "dedup_inv st \<Longrightarrow> dedup_inv (fetchPage_settle off out st)"
proof (cases out)
  case Rejected
  assume "dedup_inv st"
  then show ?thesis
    using Rejected by (simp add: settle_Rejected dedup_inv_def)
next
  case (Resolved data)
  assume inv: "dedup_inv st"
  let ?inc = "incomingItems off data"
  show ?thesis
  proof (cases "off = 0")
    case True
    then show ?thesis
      using Resolved
      by (simp add: settle_Resolved dedup_inv_def filterNew_distinct filterNew_snd [of "{}"])
  next
    case False
    have "id' ` set (images st) \<inter> id' ` set (fst (filterNew (loadedIdsRef st) ?inc)) = {}"
    proof -
      have "id' y \<noteq> id' x"
        if "x \<in> set (fst (filterNew (loadedIdsRef st) ?inc))" and "y \<in> set (images st)"
        for x y
      proof -
        have "id' x \<notin> loadedIdsRef st"
          using that(1) by (rule filterNew_fresh)
        moreover have "id' y \<in> loadedIdsRef st"
          using inv that(2) by (simp add: dedup_inv_def)
        ultimately show ?thesis by auto
      qed
      then show ?thesis by auto
    qed
    then show ?thesis
      using False Resolved inv
      by (simp add: settle_Resolved dedup_inv_def filterNew_distinct
            filterNew_snd [of "id' ` set (images st)"] image_Un)
  qed
qed

lemma dedup_inv_begin: "dedup_inv st \<Longrightarrow> dedup_inv (fetchPage_begin off sq st)"
  by (simp add: dedup_inv_def begin_fields)

lemma dedup_inv_fetchPages: "dedup_inv st \<Longrightarrow> dedup_inv (fetchPages calls st)"
  by (induction calls st rule: fetchPages.induct)
    (simp_all add: fetchPage_def dedup_inv_settle dedup_inv_begin)

lemma dedup_inv_initial: "dedup_inv initial_state"
  by (simp add: dedup_inv_def initial_state_def)

lemma dedup_inv_loadMore:
  "dedup_inv st \<Longrightarrow> dedup_inv (loadMore startIndex stopIndex items sq st)"
  by (simp add: loadMore_def dedup_inv_begin)

lemma dedup_inv_refresh: "dedup_inv (refresh sq st)"
  by (simp add: dedup_inv_def refresh_def begin_fields)

subsection \<open>Pages of numbered records\<close>

lemma read_show: "read_nat (show_nat n) = n"
proof (induction n rule: show_nat.induct)
  case (1 n)
  show ?case
  proof (cases "n < 10")
    case True
    then show ?thesis
      by (subst show_nat.simps) (simp add: read_nat_def digit_char_def)
  next
    case False
    have "n mod 10 < 10" by simp
    then have d: "of_char (digit_char (n mod 10)) = 48 + n mod 10"
      by (simp add: digit_char_def)
    have "read_nat (show_nat n) = 10 * read_nat (show_nat (n div 10)) + n mod 10"
      using False by (subst show_nat.simps) (simp add: read_nat_def d)
    then show ?thesis using 1 False by simp
  qed
qed

lemma show_nat_inj: "show_nat m = show_nat n \<longleftrightarrow> m = n"
  by (metis read_show)

lemma show_nat_mem: "show_nat n \<in> show_nat ` A \<longleftrightarrow> n \<in> A"
  by (auto simp: show_nat_inj)

lemma filterNew_distinct_page:
  "distinct (map id' xs) \<Longrightarrow> fst (filterNew S xs) = filter (\<lambda>x. id' x \<notin> S) xs"
proof (induction xs arbitrary: S)
  case Nil
  show ?case by simp
next
  case (Cons x xs)
  have "filter (\<lambda>y. id' y \<notin> insert (id' x) S) xs = filter (\<lambda>y. id' y \<notin> S) xs"
    using Cons.prems by (intro filter_cong refl) (force simp: image_iff)
  then show ?case
    using Cons by (simp add: fst_filterNew_Cons del: filterNew.simps(2))
qed

lemma filterNew_all_loaded: "\<forall>x\<in>set xs. id' x \<in> S \<Longrightarrow> fst (filterNew S xs) = []"
  by (induction xs) (simp_all add: fst_filterNew_Cons del: filterNew.simps(2))

lemma filter_upt_ge:
  "i \<le> k \<Longrightarrow> k \<le> j \<Longrightarrow> filter (\<lambda>n. \<not> n < k) [i..<j] = [k..<(j::nat)]"
proof -
  assume a: "i \<le> k" "k \<le> j"
  then have "[i..<j] = [i..<k] @ [k..<j]"
    by (metis le_Suc_ex upt_add_eq_append)
  then show ?thesis by (simp add: filter_empty_conv)
qed

text \<open>
  In the lemmas below \<open>mk\<close> is any family of records in which record \<open>n\<close> carries the
  id \<open>n\<close> in decimal; what else the records hold is left open.
\<close>

lemma id_records:
  "\<forall>n. src_id (mk n) = Some (show_nat n) \<Longrightarrow> id' (toImageData off i (mk n)) = show_nat n"
  by (simp add: toImageData_def)

lemma toImageData_records:
  "\<forall>n. src_id (mk n) = Some (show_nat n) \<Longrightarrow>
     toImageData off i (mk n) = toImageData 0 0 (mk n)"
  by (simp add: toImageData_def)

lemma mapIndexed_records:
  "\<forall>n. src_id (mk n) = Some (show_nat n) \<Longrightarrow>
     mapIndexed off i (map mk ns) = map (\<lambda>n. toImageData 0 0 (mk n)) ns"
  by (induction ns arbitrary: i) (simp_all add: toImageData_def)

lemma incomingItems_records:
  assumes "\<forall>n. src_id (mk n) = Some (show_nat n)"
  shows "incomingItems off (Some (map (\<lambda>n. Some (mk n)) ns)) =
     map (\<lambda>n. toImageData 0 0 (mk n)) ns"
proof -
  have "map the (filter Boolean (map (\<lambda>n. Some (mk n)) ns)) = map mk ns"
    by (induction ns) (simp_all add: Boolean_def)
  then show ?thesis
    using mapIndexed_records [OF assms, of off 0 ns] by (simp add: incomingItems_def)
qed

lemma distinct_records:
  "\<forall>n. src_id (mk n) = Some (show_nat n) \<Longrightarrow>
     distinct (map id' (map (\<lambda>n. toImageData 0 0 (mk n)) [i..<j]))"
  by (simp add: distinct_map id_records inj_on_def show_nat_inj comp_def)

text \<open>What settling does on a first page and on a later page of such records.\<close>

lemma first_page_records:
  assumes "\<forall>n. src_id (mk n) = Some (show_nat n)"
  shows "fetchPage_settle 0 (records_page mk 0 j) st =
     st\<lparr>loadedIdsRef := show_nat ` {0..<j},
        images := map (\<lambda>n. toImageData 0 0 (mk n)) [0..<j],
        hasMore := (j = PAGE_SIZE),
        isLoadingRef := False, isLoadingMore := False, loading := False\<rparr>"
proof -
  let ?items = "map (\<lambda>n. toImageData 0 0 (mk n)) [0..<j]"
  have "fst (filterNew {} ?items) = ?items"
    using filterNew_distinct_page [OF distinct_records [OF assms], of "{}" 0 j] by simp
  moreover have "snd (filterNew {} ?items) = show_nat ` {0..<j}"
    by (simp add: filterNew_snd_all image_image id_records [OF assms])
  ultimately show ?thesis
    by (simp add: settle_Resolved records_page_def incomingItems_records [OF assms])
qed

lemma later_page_records:
  assumes "\<forall>n. src_id (mk n) = Some (show_nat n)"
    and "0 < off" "loadedIdsRef st = show_nat ` {0..<k}" "i \<le> k" "k \<le> j"
  shows "fetchPage_settle off (records_page mk i j) st =
     st\<lparr>loadedIdsRef := show_nat ` {0..<j},
        images := images st @ map (\<lambda>n. toImageData 0 0 (mk n)) [k..<j],
        hasMore := (j - i = PAGE_SIZE),
        isLoadingRef := False, isLoadingMore := False, loading := False\<rparr>"
proof -
  let ?item = "\<lambda>n. toImageData 0 0 (mk n)"
  note ids = assms(1)
  have "fst (filterNew (show_nat ` {0..<k}) (map ?item [i..<j])) =
          filter (\<lambda>x. id' x \<notin> show_nat ` {0..<k}) (map ?item [i..<j])"
    using filterNew_distinct_page [OF distinct_records [OF ids]] by simp
  also have "\<dots> = map ?item (filter (\<lambda>n. \<not> n < k) [i..<j])"
    by (simp add: filter_map comp_def id_records [OF ids] show_nat_mem)
  also have "\<dots> = map ?item [k..<j]"
    using assms by (simp add: filter_upt_ge)
  finally have kept:
    "fst (filterNew (show_nat ` {0..<k}) (map ?item [i..<j])) = map ?item [k..<j]" .
  have "show_nat ` {0..<k} \<union> show_nat ` {i..<j} = show_nat ` {0..<j}"
    using assms(4,5)
    by (auto simp: image_Un [symmetric] intro!: arg_cong [where f = "image show_nat"])
  then have "snd (filterNew (show_nat ` {0..<k}) (map ?item [i..<j])) = show_nat ` {0..<j}"
    by (simp add: filterNew_snd_all image_image id_records [OF ids])
  then show ?thesis
    using assms(2,3) kept
    by (simp add: settle_Resolved records_page_def incomingItems_records [OF ids])
qed

lemma first_fetch_60:
  assumes "\<forall>n. src_id (mk n) = Some (show_nat n)"
  shows "fetchPage 0 sq (records_page mk 0 60) initial_state =
     (fetchPage_begin 0 sq initial_state)
       \<lparr>loadedIdsRef := show_nat ` {0..<60},
        images := map (\<lambda>n. toImageData 0 0 (mk n)) [0..<60],
        hasMore := True, isLoadingRef := False, isLoadingMore := False, loading := False\<rparr>"
  by (simp add: fetchPage_def first_page_records [OF assms] PAGE_SIZE_def)

text \<open>The records \<open>numbered\<close> are such a family.\<close>

lemma src_id_numbered: "\<forall>n. src_id (numbered n) = Some (show_nat n)"
  by (simp add: numbered_def)

lemma page_of_records: "page_of i j = records_page numbered i j"
  by (simp add: page_of_def records_page_def)

lemmas id_numbered = id_records [OF src_id_numbered]
  and incomingItems_numbered = incomingItems_records [OF src_id_numbered]
  and first_page = first_page_records [OF src_id_numbered, folded page_of_records]
  and later_page = later_page_records [OF src_id_numbered, folded page_of_records]
  and first_fetch_60_numbered = first_fetch_60 [OF src_id_numbered, folded page_of_records]

subsection \<open>The claims of the specification\<close>

lemmas settle_fields = settle_Resolved settle_Rejected

text \<open>
  Claim C1. After any sequence of calls of \<^verbatim>\<open>fetchPage\<close> from the initial state (no
  refresh in between), whatever the offsets, queries and responses, no two items have the
  same id. In each successful call, the items added all come from the page, none of them
  has an id that was in the set of loaded ids (emptied first at offset 0), and the set
  afterwards is the set before together with the ids of the items added.
\<close>

theorem fetchPage_no_duplicate_ids:
  "distinct (map id' (images (fetchPages calls initial_state)))
   \<and> (let loaded = (if off = 0 then {} else loadedIdsRef st);
           before = (if off = 0 then [] else images st);
           st' = fetchPage off sq (Resolved data) st;
           kept = drop (length before) (images st')
       in images st' = before @ kept
          \<and> set kept \<subseteq> set (incomingItems off data)
          \<and> (\<forall>x\<in>set kept. id' x \<notin> loaded)
          \<and> loadedIdsRef st' = loaded \<union> id' ` set kept)"
proof -
  have "dedup_inv (fetchPages calls initial_state)"
    using dedup_inv_initial by (rule dedup_inv_fetchPages)
  then have run: "distinct (map id' (images (fetchPages calls initial_state)))"
    by (simp add: dedup_inv_def)
  let ?loaded = "if off = 0 then {} else loadedIdsRef st"
  let ?kept = "fst (filterNew ?loaded (incomingItems off data))"
  have fresh: "\<forall>x\<in>set ?kept. id' x \<notin> ?loaded"
    using filterNew_fresh [of _ ?loaded "incomingItems off data"] by blast
  have sub: "set ?kept \<subseteq> set (incomingItems off data)"
    by (rule filterNew_subset)
  have step: "let loaded = ?loaded;
           before = (if off = 0 then [] else images st);
           st' = fetchPage off sq (Resolved data) st;
           kept = drop (length before) (images st')
       in images st' = before @ kept
          \<and> set kept \<subseteq> set (incomingItems off data)
          \<and> (\<forall>x\<in>set kept. id' x \<notin> loaded)
          \<and> loadedIdsRef st' = loaded \<union> id' ` set kept"
  proof (cases "off = 0")
    case True
    then show ?thesis
      using fresh sub filterNew_snd [of "{}" "incomingItems off data"]
      by (simp add: fetchPage_def settle_Resolved begin_fields)
  next
    case False
    then show ?thesis
      using fresh sub filterNew_snd [of "loadedIdsRef st" "incomingItems off data"]
      by (simp add: fetchPage_def settle_Resolved begin_fields)
  qed
  from run step show ?thesis by (rule conjI)
qed

theorem fetchPage_no_duplicate_ids_witness:
  "map id' (images (fetchPages [(0, None, page_of 0 2), (2, Some ''x'', Rejected), (2, None, page_of 1 3)] initial_state))
     = [''0'', ''1'', ''2'']
   \<and> distinct (map id' (images (fetchPages [(0, None, page_of 0 2), (2, Some ''x'', Rejected), (2, None, page_of 1 3)] initial_state)))
   \<and> loadedIdsRef (fetchPage 0 None (page_of 0 2) initial_state) = {''0'', ''1''}
   \<and> map id' (incomingItems 2 (Some [Some (numbered 1), Some (numbered 2)])) = [''1'', ''2'']
   \<and> map id' (drop 2 (images (fetchPage 2 None (Resolved (Some [Some (numbered 1), Some (numbered 2)]))
        (fetchPage 0 None (page_of 0 2) initial_state)))) = [''2'']
   \<and> loadedIdsRef (fetchPage 2 None (Resolved (Some [Some (numbered 1), Some (numbered 2)]))
        (fetchPage 0 None (page_of 0 2) initial_state)) = {''0'', ''1'', ''2''}"
proof -
  have "distinct (map id' (images (fetchPages [(0, None, page_of 0 2), (2, Some ''x'', Rejected), (2, None, page_of 1 3)] initial_state)))"
    using fetchPage_no_duplicate_ids
      [of "[(0, None, page_of 0 2), (2, Some ''x'', Rejected), (2, None, page_of 1 3)]"]
    by (rule conjunct1)
  moreover have "map id' (images (fetchPages [(0, None, page_of 0 2), (2, Some ''x'', Rejected), (2, None, page_of 1 3)] initial_state))
     = [''0'', ''1'', ''2'']"
    by code_simp
  moreover have "loadedIdsRef (fetchPage 0 None (page_of 0 2) initial_state) = {''0'', ''1''}"
    by code_simp
  moreover have "map id' (incomingItems 2 (Some [Some (numbered 1), Some (numbered 2)])) = [''1'', ''2'']"
    by code_simp
  moreover have "map id' (drop 2 (images (fetchPage 2 None (Resolved (Some [Some (numbered 1), Some (numbered 2)]))
        (fetchPage 0 None (page_of 0 2) initial_state)))) = [''2'']"
    by code_simp
  moreover have "loadedIdsRef (fetchPage 2 None (Resolved (Some [Some (numbered 1), Some (numbered 2)]))
        (fetchPage 0 None (page_of 0 2) initial_state)) = {''0'', ''1'', ''2''}"
    by code_simp
  ultimately show ?thesis by simp
qed

text \<open>
  The reference \<^verbatim>\<open>isLoadingRef\<close> stays set through every call that does not settle a
  request.
\<close>

lemma isLoadingRef_perform: "isLoadingRef st \<Longrightarrow> isLoadingRef (perform operation st)"
  by (cases operation) (simp_all add: begin_fields loadMore_def refresh_def)

lemma isLoadingRef_performs: "isLoadingRef st \<Longrightarrow> isLoadingRef (performs operations st)"
  by (induction operations arbitrary: st) (simp_all add: isLoadingRef_perform)

text \<open>The states of the feed while the grid is mounted.\<close>

lemma queryParam_empty: "queryParam (Some '''') = None"
  by (simp add: queryParam_def)

lemma sent_mounted:
  "sent mounted = [\<lparr>offset = 0, limit = 60, q = None\<rparr>, \<lparr>offset = 0, limit = 60, q = None\<rparr>]"
  by (simp add: mounted_def refresh_def begin_fields initial_state_def PAGE_SIZE_def
        queryParam_empty queryParam_def)

lemma first_shown_fields:
  "hasMore first_shown" "\<not> isLoadingRef first_shown" "length (images first_shown) = 60"
  "sent first_shown = sent mounted"
  by (simp_all add: first_shown_def first_page PAGE_SIZE_def)

lemma first_more_begin: "first_more = fetchPage_begin 60 (Some '''') first_shown"
  by (simp add: first_more_def loadMore_def first_shown_fields)

lemma second_shown_fields:
  "hasMore second_shown" "\<not> isLoadingRef second_shown" "length (images second_shown) = 60"
  "sent second_shown = sent first_more"
  by (simp_all add: second_shown_def first_page PAGE_SIZE_def)

lemma second_more_begin: "second_more = fetchPage_begin 60 (Some '''') second_shown"
  by (simp add: second_more_def loadMore_def second_shown_fields)

lemma at_rest_fields:
  "hasMore at_rest" "\<not> isLoadingRef at_rest" "length (images at_rest) = 60"
  "sent at_rest = sent mounted"
  by (simp_all add: at_rest_def first_page PAGE_SIZE_def first_shown_fields)

text \<open>
  Claim C2 as stated does not hold. While the grid is mounted two requests for offset 0
  are pending. When one of them has resolved, \<^verbatim>\<open>loadMore\<close> sends a request for offset 60
  and sets the reference. The other request for offset 0 then resolves and its
  \<^verbatim>\<open>finally\<close> block clears the reference, although the request for offset 60 has not
  settled. The next \<^verbatim>\<open>loadMore\<close> sends a second request for offset 60.
\<close>

theorem loadMore_overlap_counterexample:
  "isLoadingRef first_more
   \<and> sent first_more =
       [\<lparr>offset = 0, limit = 60, q = None\<rparr>, \<lparr>offset = 0, limit = 60, q = None\<rparr>,
        \<lparr>offset = 60, limit = 60, q = None\<rparr>]
   \<and> \<not> isLoadingRef second_shown
   \<and> sent second_more =
       [\<lparr>offset = 0, limit = 60, q = None\<rparr>, \<lparr>offset = 0, limit = 60, q = None\<rparr>,
        \<lparr>offset = 60, limit = 60, q = None\<rparr>, \<lparr>offset = 60, limit = 60, q = None\<rparr>]"
proof -
  have first: "sent first_more =
      [\<lparr>offset = 0, limit = 60, q = None\<rparr>, \<lparr>offset = 0, limit = 60, q = None\<rparr>,
       \<lparr>offset = 60, limit = 60, q = None\<rparr>]"
    unfolding first_more_begin
    by (simp add: begin_fields first_shown_fields sent_mounted PAGE_SIZE_def queryParam_empty)
  have "isLoadingRef first_more"
    unfolding first_more_begin by (simp add: begin_fields)
  moreover have "sent second_more =
      [\<lparr>offset = 0, limit = 60, q = None\<rparr>, \<lparr>offset = 0, limit = 60, q = None\<rparr>,
       \<lparr>offset = 60, limit = 60, q = None\<rparr>, \<lparr>offset = 60, limit = 60, q = None\<rparr>]"
    unfolding second_more_begin
    by (simp add: begin_fields second_shown_fields first PAGE_SIZE_def queryParam_empty)
  ultimately show ?thesis
    using first second_shown_fields(2) by blast
qed

text \<open>
  Claim C2, amended. When a call of \<^verbatim>\<open>loadMore\<close> has started a fetch, exactly one request
  has been sent and the reference \<^verbatim>\<open>isLoadingRef\<close> is set before the request is
  awaited. A second call of \<^verbatim>\<open>loadMore\<close> then changes nothing and sends nothing, whatever
  value of \<^verbatim>\<open>hasMore\<close> it sees, and so does a call of \<^verbatim>\<open>loadMore\<close> made after any
  other calls of \<^verbatim>\<open>fetchPage\<close>, \<^verbatim>\<open>loadMore\<close> and \<^verbatim>\<open>refresh\<close>, as long as no request
  has settled since the first call. The reference is cleared when a request settles,
  whichever request it is, in whatever state and with whatever outcome.
\<close>

theorem loadMore_reentrancy:
  assumes "hasMore st" and "\<not> isLoadingRef st" and "int (length items) - 1 \<le> stopIndex"
  shows "sent (loadMore startIndex stopIndex items sq st) =
           sent st @ [\<lparr>offset = length items, limit = PAGE_SIZE, q = queryParam sq\<rparr>]
       \<and> isLoadingRef (loadMore startIndex stopIndex items sq st)
       \<and> loadMore startIndex2 stopIndex2 items2 sq2 (loadMore startIndex stopIndex items sq st) =
           loadMore startIndex stopIndex items sq st
       \<and> loadMore startIndex2 stopIndex2 items2 sq2
             ((loadMore startIndex stopIndex items sq st)\<lparr>hasMore := h\<rparr>) =
           (loadMore startIndex stopIndex items sq st)\<lparr>hasMore := h\<rparr>
       \<and> isLoadingRef (performs operations (loadMore startIndex stopIndex items sq st))
       \<and> loadMore startIndex2 stopIndex2 items2 sq2
             (performs operations (loadMore startIndex stopIndex items sq st)) =
           performs operations (loadMore startIndex stopIndex items sq st)
       \<and> \<not> isLoadingRef (fetchPage_settle (length items) out (loadMore startIndex stopIndex items sq st))
       \<and> \<not> isLoadingRef (fetchPage_settle off out st')"
proof -
  have first: "loadMore startIndex stopIndex items sq st = fetchPage_begin (length items) sq st"
    using assms by (simp add: loadMore_def)
  have cleared: "\<not> isLoadingRef (fetchPage_settle off' out s)" for off' s
    by (cases out) (simp_all add: settle_fields)
  have kept: "isLoadingRef (performs operations (fetchPage_begin (length items) sq st))"
    by (rule isLoadingRef_performs) (simp add: begin_fields)
  then have idle: "loadMore startIndex2 stopIndex2 items2 sq2
        (performs operations (fetchPage_begin (length items) sq st)) =
      performs operations (fetchPage_begin (length items) sq st)"
    by (simp add: loadMore_def)
  show ?thesis
    unfolding first using cleared kept idle by (simp add: begin_fields loadMore_def)
qed

theorem loadMore_reentrancy_witness:
  "hasMore at_rest \<and> \<not> isLoadingRef at_rest \<and> int (length (images at_rest)) - 1 \<le> 59
   \<and> sent (loadMore 0 59 (images at_rest) (Some '''') at_rest) =
       [\<lparr>offset = 0, limit = 60, q = None\<rparr>, \<lparr>offset = 0, limit = 60, q = None\<rparr>,
        \<lparr>offset = 60, limit = 60, q = None\<rparr>]
   \<and> sent (loadMore 0 61 (images at_rest) (Some '''')
        (loadMore 0 59 (images at_rest) (Some '''') at_rest)) =
       [\<lparr>offset = 0, limit = 60, q = None\<rparr>, \<lparr>offset = 0, limit = 60, q = None\<rparr>,
        \<lparr>offset = 60, limit = 60, q = None\<rparr>]
   \<and> sent (loadMore 0 61 (images at_rest) (Some '''')
        (performs [LoadMore 0 60 (images at_rest) (Some ''''), FetchPage 0 None]
           (loadMore 0 59 (images at_rest) (Some '''') at_rest))) =
       [\<lparr>offset = 0, limit = 60, q = None\<rparr>, \<lparr>offset = 0, limit = 60, q = None\<rparr>,
        \<lparr>offset = 60, limit = 60, q = None\<rparr>, \<lparr>offset = 0, limit = 60, q = None\<rparr>]"
proof -
  let ?one = "loadMore 0 59 (images at_rest) (Some '''') at_rest"
  let ?ops = "[LoadMore 0 60 (images at_rest) (Some ''''), FetchPage 0 None]"
  have pre: "hasMore at_rest" "\<not> isLoadingRef at_rest" "int (length (images at_rest)) - 1 \<le> 59"
    by (simp_all add: at_rest_fields)
  note inst = loadMore_reentrancy [OF pre, of 0 "Some ''''" 0 61 "images at_rest" "Some ''''"
      True ?ops Rejected 0 initial_state]
  have one: "sent ?one =
      [\<lparr>offset = 0, limit = 60, q = None\<rparr>, \<lparr>offset = 0, limit = 60, q = None\<rparr>,
       \<lparr>offset = 60, limit = 60, q = None\<rparr>]"
    using inst by (simp add: at_rest_fields sent_mounted PAGE_SIZE_def queryParam_empty)
  have two: "loadMore 0 61 (images at_rest) (Some '''') ?one = ?one"
    using inst by blast
  have idle: "loadMore 0 61 (images at_rest) (Some '''') (performs ?ops ?one) = performs ?ops ?one"
    using inst by blast
  have "loadMore 0 60 (images at_rest) (Some '''') ?one = ?one"
    using loadMore_reentrancy [OF pre, of 0 "Some ''''" 0 60 "images at_rest" "Some ''''"]
    by blast
  then have ops: "sent (performs ?ops ?one) = sent ?one @ [\<lparr>offset = 0, limit = 60, q = None\<rparr>]"
    by (simp add: begin_fields PAGE_SIZE_def queryParam_def)
  show ?thesis
    using pre one two idle ops by simp
qed

text \<open>
  Claim C3. After a successful \<^verbatim>\<open>fetchPage\<close> on a page of records, \<^verbatim>\<open>hasMore\<close> says
  whether the page had \<^verbatim>\<open>PAGE_SIZE\<close> records, counted before the ids are compared with
  the loaded ones: it is true for a page of \<^verbatim>\<open>PAGE_SIZE\<close> records whose ids are all
  loaded already (and the items stay as they were), and false for a shorter page.
\<close>

theorem fetchPage_hasMore:
  "hasMore (fetchPage off sq (Resolved (Some (map Some recs))) st) = (length recs = PAGE_SIZE)
   \<and> (length recs = PAGE_SIZE \<and> 0 < off
        \<and> (\<forall>x\<in>set (incomingItems off (Some (map Some recs))). id' x \<in> loadedIdsRef st)
      \<longrightarrow> hasMore (fetchPage off sq (Resolved (Some (map Some recs))) st)
          \<and> images (fetchPage off sq (Resolved (Some (map Some recs))) st) = images st)
   \<and> (length recs < PAGE_SIZE
      \<longrightarrow> \<not> hasMore (fetchPage off sq (Resolved (Some (map Some recs))) st))"
proof -
  let ?data = "Some (map Some recs)"
  have len: "length (incomingItems off ?data) = length recs"
    by (simp add: length_incomingItems Boolean_def)
  have more: "hasMore (fetchPage off sq (Resolved ?data) st) = (length recs = PAGE_SIZE)"
    by (simp add: fetchPage_def settle_Resolved len)
  have dup: "images (fetchPage off sq (Resolved ?data) st) = images st"
    if "0 < off" and "\<forall>x\<in>set (incomingItems off ?data). id' x \<in> loadedIdsRef st"
  proof -
    have "fst (filterNew (loadedIdsRef st) (incomingItems off ?data)) = []"
      using that(2) by (rule filterNew_all_loaded)
    then show ?thesis
      using that(1) by (simp add: fetchPage_def settle_Resolved begin_fields)
  qed
  show ?thesis using more dup by simp
qed

theorem fetchPage_hasMore_witness:
  "length (map numbered [0..<60]) = PAGE_SIZE
   \<and> id' ` set (incomingItems 60 (Some (map Some (map numbered [0..<60]))))
        \<subseteq> loadedIdsRef (fetchPage 0 None (page_of 0 60) initial_state)
   \<and> hasMore (fetchPage 60 None (Resolved (Some (map Some (map numbered [0..<60]))))
        (fetchPage 0 None (page_of 0 60) initial_state))
   \<and> length (images (fetchPage 60 None (Resolved (Some (map Some (map numbered [0..<60]))))
        (fetchPage 0 None (page_of 0 60) initial_state))) = 60
   \<and> length (map numbered [0..<59]) < PAGE_SIZE
   \<and> \<not> hasMore (fetchPage 0 None (Resolved (Some (map Some (map numbered [0..<59])))) initial_state)"
proof -
  let ?recs = "map numbered [0..<60]"
  let ?st = "fetchPage 0 None (page_of 0 60) initial_state"
  have st: "?st = (fetchPage_begin 0 None initial_state)
      \<lparr>loadedIdsRef := show_nat ` {0..<60},
        images := map (\<lambda>n. toImageData 0 0 (numbered n)) [0..<60],
        hasMore := True, isLoadingRef := False, isLoadingMore := False, loading := False\<rparr>"
    by (simp add: fetchPage_def first_page PAGE_SIZE_def)
  have inc: "incomingItems 60 (Some (map Some ?recs)) = map (\<lambda>n. toImageData 0 0 (numbered n)) [0..<60]"
    using incomingItems_numbered [of 60 "[0..<60]"] by (simp add: comp_def)
  have len: "length ?recs = PAGE_SIZE"
    by (simp add: PAGE_SIZE_def)
  have loaded: "\<forall>x\<in>set (incomingItems 60 (Some (map Some ?recs))). id' x \<in> loadedIdsRef ?st"
    unfolding inc st by (simp add: id_numbered)
  have short: "length (map numbered [0..<59]) < PAGE_SIZE"
    by (simp add: PAGE_SIZE_def)
  have pos: "(0::nat) < 60"
    by simp
  have "hasMore (fetchPage 60 None (Resolved (Some (map Some ?recs))) ?st)
      \<and> images (fetchPage 60 None (Resolved (Some (map Some ?recs))) ?st) = images ?st"
    using fetchPage_hasMore [of 60 None ?recs ?st] len loaded pos by blast
  moreover have "length (images ?st) = 60"
    unfolding st by simp
  moreover have "\<not> hasMore (fetchPage 0 None (Resolved (Some (map Some (map numbered [0..<59])))) initial_state)"
    using fetchPage_hasMore [of 0 None "map numbered [0..<59]" initial_state] short by blast
  ultimately show ?thesis
    using len loaded short by (simp add: image_subset_iff)
qed

text \<open>
  Claim C4. Right after \<^verbatim>\<open>refresh\<close>, before its request settles, there are no items, the
  set of loaded ids is empty, \<^verbatim>\<open>hasMore\<close> and \<^verbatim>\<open>loading\<close> are true, there is no error,
  and the request for offset 0 with the query has been sent. When that request resolves,
  the items are the unique records of the first page (in whatever state the response
  finds the feed).
\<close>

theorem refresh_resets:
  "images (refresh sq st) = []
   \<and> loadedIdsRef (refresh sq st) = {}
   \<and> hasMore (refresh sq st)
   \<and> error (refresh sq st) = None
   \<and> loading (refresh sq st)
   \<and> isLoadingRef (refresh sq st)
   \<and> sent (refresh sq st) = sent st @ [\<lparr>offset = 0, limit = PAGE_SIZE, q = queryParam sq\<rparr>]
   \<and> images (fetchPage_settle 0 (Resolved data) (refresh sq st)) =
       uniqueRecords (incomingItems 0 data)
   \<and> images (fetchPage_settle 0 (Resolved data) st') = uniqueRecords (incomingItems 0 data)"
  by (simp add: refresh_def begin_fields settle_Resolved uniqueRecords_def
        filterNew_index [of "{}"])

theorem refresh_resets_witness:
  "images (refresh (Some '' nebula '') (fetchPage 0 None (page_of 0 3) initial_state)) = []
   \<and> sent (refresh (Some '' nebula '') (fetchPage 0 None (page_of 0 3) initial_state)) =
        [\<lparr>offset = 0, limit = 60, q = None\<rparr>, \<lparr>offset = 0, limit = 60, q = Some ''nebula''\<rparr>]
   \<and> map id' (images (fetchPage_settle 0
        (Resolved (Some [Some (numbered 5), Some (numbered 6), Some (numbered 5)]))
        (refresh (Some '' nebula '') (fetchPage 0 None (page_of 0 3) initial_state)))) = [''5'', ''6'']"
proof -
  let ?st = "fetchPage 0 None (page_of 0 3) initial_state"
  let ?data = "Some [Some (numbered 5), Some (numbered 6), Some (numbered 5)]"
  have u: "map id' (uniqueRecords (incomingItems 0 ?data)) = [''5'', ''6'']"
    by code_simp
  have s: "sent ?st = [\<lparr>offset = 0, limit = 60, q = None\<rparr>]"
    by code_simp
  have q: "queryParam (Some '' nebula '') = Some ''nebula''"
    by code_simp
  show ?thesis
    using refresh_resets [of "Some '' nebula ''" ?st ?data] u s q
    by (simp add: PAGE_SIZE_def)
qed



text \<open>
  Claim C6. When the request of \<^verbatim>\<open>fetchPage\<close> rejects, the error becomes a message that is
  not empty, and the items, \<^verbatim>\<open>hasMore\<close> and the set of loaded ids stay as they were.
  However the request settles, the in-flight reference, the loading-more flag and the
  loading flag are false afterwards. A first fetch that fails, from the initial state or
  after a refresh, leaves no items and the loading flag false.
\<close>

theorem fetchPage_failure:
  "error (fetchPage off sq Rejected st) = Some ''Failed to fetch space images''
   \<and> images (fetchPage off sq Rejected st) = images st
   \<and> hasMore (fetchPage off sq Rejected st) = hasMore st
   \<and> loadedIdsRef (fetchPage off sq Rejected st) = loadedIdsRef st
   \<and> \<not> isLoadingRef (fetchPage off sq out st)
   \<and> \<not> isLoadingMore (fetchPage off sq out st)
   \<and> \<not> loading (fetchPage off sq out st)
   \<and> images (fetchPage 0 sq Rejected initial_state) = []
   \<and> images (fetchPage_settle 0 Rejected (refresh sq st)) = []
   \<and> \<not> loading (fetchPage_settle 0 Rejected (refresh sq st))"
proof -
  have "\<not> isLoadingRef (fetchPage off sq out st) \<and> \<not> isLoadingMore (fetchPage off sq out st)
      \<and> \<not> loading (fetchPage off sq out st)"
    by (cases out) (simp_all add: fetchPage_def settle_fields)
  then show ?thesis
    by (simp add: fetchPage_def settle_Rejected begin_fields refresh_def initial_state_def)
qed

theorem fetchPage_failure_witness:
  "error (fetchPage 60 None Rejected (fetchPage 0 None (page_of 0 60) initial_state)) =
     Some ''Failed to fetch space images''
   \<and> length (images (fetchPage 60 None Rejected (fetchPage 0 None (page_of 0 60) initial_state))) = 60
   \<and> hasMore (fetchPage 60 None Rejected (fetchPage 0 None (page_of 0 60) initial_state))
   \<and> \<not> isLoadingMore (fetchPage 60 None Rejected (fetchPage 0 None (page_of 0 60) initial_state))
   \<and> isLoadingMore (fetchPage_begin 60 None (fetchPage 0 None (page_of 0 60) initial_state))
   \<and> loading initial_state
   \<and> \<not> loading (fetchPage 0 None Rejected initial_state)"
proof -
  let ?st = "fetchPage 0 None (page_of 0 60) initial_state"
  have "length (images ?st) = 60 \<and> hasMore ?st"
    by (simp add: fetchPage_def first_page PAGE_SIZE_def)
  then show ?thesis
    using fetchPage_failure [of 60 None ?st Rejected]
      fetchPage_failure [of 0 None initial_state Rejected]
    by (simp add: begin_fields initial_state_def)
qed

text \<open>
  Claim C7. With \<^verbatim>\<open>PAGE_SIZE\<close> 60: a first fetch that returns 60 records with the ids 0
  to 59 leaves 60 items and \<^verbatim>\<open>hasMore\<close> true; a fetch started by \<^verbatim>\<open>loadMore\<close> then
  asks for offset 60, and when it returns the records with the ids 40 to 99 there are 100
  items, the 60 first ones followed by the records with the ids 60 to 99, and
  \<^verbatim>\<open>hasMore\<close> is true. The records may hold anything besides their ids.
\<close>

theorem scenario_A:
  assumes "\<forall>n. src_id (mk n) = Some (show_nat n)" and "59 \<le> stopIndex"
  shows "let s1 = fetchPage 0 None (records_page mk 0 60) initial_state;
             b2 = loadMore startIndex stopIndex (images s1) None s1;
             s2 = fetchPage_settle 60 (records_page mk 40 100) b2
         in PAGE_SIZE = 60
            \<and> length (images s1) = 60 \<and> map id' (images s1) = map show_nat [0..<60] \<and> hasMore s1
            \<and> sent b2 = sent s1 @ [\<lparr>offset = 60, limit = 60, q = None\<rparr>]
            \<and> length (images s2) = 100
            \<and> images s2 = images s1 @ map (\<lambda>n. toImageData 60 (n - 40) (mk n)) [60..<100]
            \<and> map id' (images s2) = map show_nat [0..<100]
            \<and> hasMore s2"
proof -
  note ids = assms(1)
  let ?item = "\<lambda>n. toImageData 0 0 (mk n)"
  let ?s1 = "fetchPage 0 None (records_page mk 0 60) initial_state"
  let ?b2 = "loadMore startIndex stopIndex (images ?s1) None ?s1"
  have b2: "?b2 = fetchPage_begin 60 None ?s1"
    using assms(2) by (simp add: loadMore_def first_fetch_60 [OF ids])
  have loaded: "loadedIdsRef ?b2 = show_nat ` {0..<60}"
    unfolding b2 by (simp add: begin_fields first_fetch_60 [OF ids])
  have s2: "fetchPage_settle 60 (records_page mk 40 100) ?b2 =
      ?b2\<lparr>loadedIdsRef := show_nat ` {0..<100},
          images := images ?b2 @ map ?item [60..<100],
          hasMore := (100 - 40 = PAGE_SIZE),
          isLoadingRef := False, isLoadingMore := False, loading := False\<rparr>"
    using ids _ loaded by (rule later_page_records) simp_all
  have new: "map (\<lambda>n. toImageData 60 (n - 40) (mk n)) [60..<100] = map ?item [60..<100]"
    using toImageData_records [OF ids] by simp
  have ids_all:
    "map id' (map ?item [0..<60]) @ map id' (map ?item [60..<100]) = map show_nat [0..<100]"
  proof -
    have "[0..<100] = [0..<60] @ [60..<(100::nat)]"
      using upt_add_eq_append [of 0 60 40] by simp
    then show ?thesis
      by (simp add: comp_def id_records [OF ids] del: upt_Suc)
  qed
  have q: "queryParam None = None"
    by (simp add: queryParam_def)
  show ?thesis
    unfolding Let_def s2 new unfolding b2
    using ids_all
    by (simp add: begin_fields first_fetch_60 [OF ids] PAGE_SIZE_def q comp_def
          id_records [OF ids] del: upt_Suc)
qed

theorem scenario_A_witness:
  "(\<forall>n. src_id (numbered n) = Some (show_nat n))
   \<and> (59::int) \<le> 59
   \<and> length (images (fetchPage_settle 60 (page_of 40 100)
        (loadMore 0 59 (images (fetchPage 0 None (page_of 0 60) initial_state)) None
           (fetchPage 0 None (page_of 0 60) initial_state)))) = 100
   \<and> hasMore (fetchPage_settle 60 (page_of 40 100)
        (loadMore 0 59 (images (fetchPage 0 None (page_of 0 60) initial_state)) None
           (fetchPage 0 None (page_of 0 60) initial_state)))"
proof -
  have le: "(59::int) \<le> 59"
    by simp
  from scenario_A [OF src_id_numbered le, of 0] le src_id_numbered show ?thesis
    unfolding Let_def page_of_records by blast
qed

text \<open>
  Claim C8 as stated does not hold. From the initial state a first fetch fails and sets
  the error. A call of \<^verbatim>\<open>loadMore\<close> then begins a fetch (no items are loaded, so the
  offset is 0) and the error is still set once the fetch has begun; the request resolves
  with one record, which becomes the only item, and the error is still set.
\<close>

theorem error_survives_loadMore_counterexample:
  "error (fetchPage 0 None Rejected initial_state) = Some ''Failed to fetch space images''
   \<and> sent (loadMore 0 0 [] None (fetchPage 0 None Rejected initial_state)) =
       [\<lparr>offset = 0, limit = 60, q = None\<rparr>, \<lparr>offset = 0, limit = 60, q = None\<rparr>]
   \<and> error (loadMore 0 0 [] None (fetchPage 0 None Rejected initial_state)) =
       Some ''Failed to fetch space images''
   \<and> map id' (images (fetchPage_settle 0 (page_of 0 1)
         (loadMore 0 0 [] None (fetchPage 0 None Rejected initial_state)))) = [''0'']
   \<and> error (fetchPage_settle 0 (page_of 0 1)
         (loadMore 0 0 [] None (fetchPage 0 None Rejected initial_state))) =
       Some ''Failed to fetch space images''"
proof -
  let ?failed = "fetchPage 0 None Rejected initial_state"
  let ?begun = "loadMore 0 0 [] None ?failed"
  have failed: "?failed = (fetchPage_begin 0 None initial_state)
      \<lparr>error := Some ''Failed to fetch space images'',
        isLoadingRef := False, isLoadingMore := False, loading := False\<rparr>"
    by (simp add: fetchPage_def settle_Rejected)
  have begun: "?begun = fetchPage_begin 0 None ?failed"
    unfolding failed by (simp add: loadMore_def begin_fields initial_state_def)
  have q: "queryParam None = None"
    by (simp add: queryParam_def)
  have z: "show_nat 0 = ''0''"
    by code_simp
  have "error ?failed = Some ''Failed to fetch space images''"
    unfolding failed by simp
  moreover have "sent ?begun =
      [\<lparr>offset = 0, limit = 60, q = None\<rparr>, \<lparr>offset = 0, limit = 60, q = None\<rparr>]"
    unfolding begun unfolding failed
    by (simp add: begin_fields initial_state_def PAGE_SIZE_def q)
  moreover have "error ?begun = Some ''Failed to fetch space images''"
    unfolding begun unfolding failed by (simp add: begin_fields)
  moreover have "map id' (images (fetchPage_settle 0 (page_of 0 1) ?begun)) = [''0'']"
    using z by (simp add: first_page id_numbered)
  moreover have "error (fetchPage_settle 0 (page_of 0 1) ?begun) =
      Some ''Failed to fetch space images''"
    unfolding begun unfolding failed by (simp add: first_page begin_fields)
  ultimately show ?thesis
    by blast
qed

text \<open>
  Claim C8, amended. The error is set when a request rejects and is cleared by
  \<^verbatim>\<open>refresh\<close>, before its fetch begins; it is still clear when that fetch has resolved.
  \<^verbatim>\<open>fetchPage\<close> itself never clears it: beginning a fetch, through \<^verbatim>\<open>loadMore\<close> or
  directly, and a request that resolves leave the error as it was.
\<close>

theorem error_cleared_by_refresh_only:
  "error (fetchPage_settle off Rejected st) = Some ''Failed to fetch space images''
   \<and> error (refresh sq st) = None
   \<and> error (fetchPage_settle 0 (Resolved data) (refresh sq st)) = None
   \<and> error (fetchPage_begin off sq st) = error st
   \<and> error (loadMore startIndex stopIndex items sq st) = error st
   \<and> error (fetchPage_settle off (Resolved data) st) = error st
   \<and> error (fetchPage off sq (Resolved data) st) = error st"
  by (simp add: settle_Rejected settle_Resolved refresh_def begin_fields loadMore_def fetchPage_def)

theorem error_cleared_by_refresh_only_witness:
  "error (fetchPage 0 None Rejected initial_state) = Some ''Failed to fetch space images''
   \<and> error (fetchPage 5 None (page_of 0 1) (fetchPage 0 None Rejected initial_state)) =
       Some ''Failed to fetch space images''
   \<and> error (loadMore 0 0 [] None (fetchPage 0 None Rejected initial_state)) =
       Some ''Failed to fetch space images''
   \<and> error (refresh None (fetchPage 0 None Rejected initial_state)) = None"
proof -
  let ?st = "fetchPage 0 None Rejected initial_state"
  have failed: "error ?st = Some ''Failed to fetch space images''"
    using error_cleared_by_refresh_only [of 0 "fetchPage_begin 0 None initial_state"]
    by (simp add: fetchPage_def)
  have "error (fetchPage 5 None (page_of 0 1) ?st) = error ?st
      \<and> error (loadMore 0 0 [] None ?st) = error ?st
      \<and> error (refresh None ?st) = None"
    using error_cleared_by_refresh_only [of 5 ?st None _ 0 0 "[]"]
    by (simp add: page_of_def)
  then show ?thesis
    using failed by simp
qed

text \<open>
  Claim C9. After a successful \<^verbatim>\<open>fetchPage\<close> the items are the earlier items (none at
  offset 0) followed by the records of the page taken in page order at exactly the
  positions \<open>i\<close> where the id is not among the loaded ids (none at offset 0) and no record
  before position \<open>i\<close> in the page has the same id.
\<close>

theorem fetchPage_first_occurrence:
  "images (fetchPage off sq (Resolved data) st) =
     (if off = 0 then [] else images st) @
     map (\<lambda>i. incomingItems off data ! i)
       (filter
          (\<lambda>i. id' (incomingItems off data ! i) \<notin> (if off = 0 then {} else loadedIdsRef st)
             \<and> id' (incomingItems off data ! i) \<notin> id' ` set (take i (incomingItems off data)))
          [0..<length (incomingItems off data)])"
  by (simp add: fetchPage_def settle_Resolved begin_fields filterNew_index [of "{}"]
        filterNew_index [of "loadedIdsRef st"])

theorem fetchPage_first_occurrence_witness:
  "map (\<lambda>x. (id' x, name x))
     (images (fetchPage 1 None
        (Resolved (Some [Some (numbered 7), Some (numbered 8),
           Some ((numbered 7)\<lparr>src_name := ''again''\<rparr>), Some (numbered 9)]))
        (fetchPage 0 None (page_of 8 9) initial_state)))
   = [(''8'', ''''), (''7'', ''''), (''9'', '''')]"
proof -
  let ?data = "Some [Some (numbered 7), Some (numbered 8),
           Some ((numbered 7)\<lparr>src_name := ''again''\<rparr>), Some (numbered 9)]"
  let ?st = "fetchPage 0 None (page_of 8 9) initial_state"
  have "map (\<lambda>x. (id' x, name x))
     ((if (1::nat) = 0 then [] else images ?st) @
     map (\<lambda>i. incomingItems 1 ?data ! i)
       (filter
          (\<lambda>i. id' (incomingItems 1 ?data ! i) \<notin> (if (1::nat) = 0 then {} else loadedIdsRef ?st)
             \<and> id' (incomingItems 1 ?data ! i) \<notin> id' ` set (take i (incomingItems 1 ?data)))
          [0..<length (incomingItems 1 ?data)]))
     = [(''8'', ''''), (''7'', ''''), (''9'', '''')]"
    by code_simp
  then show ?thesis
    using fetchPage_first_occurrence [of 1 None ?data ?st] by simp
qed

text \<open>
  Claim C10. The falsy entries of a response are dropped before ids are assigned and
  compared: the incoming items are those of the response without these entries. They do
  not count for \<^verbatim>\<open>hasMore\<close>, which compares the number of the remaining entries with
  \<^verbatim>\<open>PAGE_SIZE\<close>; a response of \<^verbatim>\<open>PAGE_SIZE\<close> entries one of which is null gives
  \<^verbatim>\<open>hasMore\<close> false.
\<close>

theorem fetchPage_discards_falsy:
  "incomingItems off (Some entries) = incomingItems off (Some (filter (\<lambda>e. e \<noteq> None) entries))
   \<and> hasMore (fetchPage off sq (Resolved (Some entries)) st) =
       (length (filter (\<lambda>e. e \<noteq> None) entries) = PAGE_SIZE)
   \<and> (length entries = PAGE_SIZE \<and> None \<in> set entries
      \<longrightarrow> \<not> hasMore (fetchPage off sq (Resolved (Some entries)) st))"
proof -
  have B: "Boolean = (\<lambda>e. e \<noteq> None)"
    by (simp add: fun_eq_iff Boolean_def)
  have less: "length (filter (\<lambda>e. e \<noteq> None) entries) < length entries" if "None \<in> set entries"
    using that by (intro length_filter_less [of None]) simp_all
  have more: "hasMore (fetchPage off sq (Resolved (Some entries)) st) =
       (length (filter (\<lambda>e. e \<noteq> None) entries) = PAGE_SIZE)"
    by (simp add: fetchPage_def settle_Resolved length_incomingItems B)
  show ?thesis
    using less more by (auto simp: incomingItems_def B)
qed

theorem fetchPage_discards_falsy_witness:
  "length (None # map (\<lambda>n. Some (numbered n)) [0..<59]) = PAGE_SIZE
   \<and> None \<in> set (None # map (\<lambda>n. Some (numbered n)) [0..<59])
   \<and> \<not> hasMore (fetchPage 0 None (Resolved (Some (None # map (\<lambda>n. Some (numbered n)) [0..<59]))) initial_state)
   \<and> map id' (incomingItems 0 (Some [None, Some ((numbered 3)\<lparr>src_id := None\<rparr>)])) = [''tmp-0-0'']"
proof -
  let ?entries = "None # map (\<lambda>n. Some (numbered n)) [0..<59]"
  have len: "length ?entries = PAGE_SIZE"
    by (simp add: PAGE_SIZE_def)
  have mem: "None \<in> set ?entries"
    by simp
  have "\<not> hasMore (fetchPage 0 None (Resolved (Some ?entries)) initial_state)"
    using fetchPage_discards_falsy [of 0 ?entries None initial_state] len mem by blast
  moreover have "map id' (incomingItems 0 (Some [None, Some ((numbered 3)\<lparr>src_id := None\<rparr>)])) = [''tmp-0-0'']"
    by code_simp
  ultimately show ?thesis
    using len mem by blast
qed

end
